theory Spec2Isabelle
  imports Main "HOL-Library.Word" "HOL-Library.Signed_Division"
begin

section \<open>UVPCB: countdown timer for a UV exposure chamber (src/UVPCB.ino)\<close>

text \<open>
  The sketch runs on an Arduino Uno (AVR): \<open>int\<close> is a 16-bit two's complement integer
  and \<open>unsigned long\<close> a 32-bit unsigned integer. Both are modelled as machine words, so
  every \<open>+\<close>, \<open>-\<close> and \<open>*\<close> below wraps as the compiled code does; comparisons of
  \<open>int\<close> values are the signed ones (\<open><s\<close>, \<open>\<le>s\<close>), comparisons of \<open>unsigned long\<close>
  values the unsigned ones.
\<close>

type_synonym cint = "16 word"
type_synonym ulong = "32 word"
type_synonym clong = "32 word"

subsection \<open>Constants\<close>

definition SCREEN_WIDTH :: cint where "SCREEN_WIDTH = 128"
definition DEBOUNCE_DELAY :: ulong where "DEBOUNCE_DELAY = 300"
definition FAST_THRESHOLD :: ulong where "FAST_THRESHOLD = 60"
definition MIN_TIME :: cint where "MIN_TIME = 1"
definition MAX_TIME :: cint where "MAX_TIME = 1800"
definition EEPROM_ADDRESS :: nat where "EEPROM_ADDRESS = 0"

subsection \<open>C arithmetic that HOL words do not have\<close>

text \<open>C's \<open>/\<close> and \<open>%\<close> on signed integers truncate towards zero.\<close>

definition c_div :: "'a::len word \<Rightarrow> 'a word \<Rightarrow> 'a word" where
  "c_div a b = word_of_int (sint a sdiv sint b)"

definition c_mod :: "'a::len word \<Rightarrow> 'a word \<Rightarrow> 'a word" where
  "c_mod a b = word_of_int (sint a smod sint b)"

text \<open>The Arduino macro
  \<^verbatim>\<open>#define constrain(amt,low,high) ((amt)<(low)?(low):((amt)>(high)?(high):(amt)))\<close>
  at type \<open>int\<close>.\<close>

definition constrain :: "cint \<Rightarrow> cint \<Rightarrow> cint \<Rightarrow> cint" where
  "constrain amt low high = (if amt <s low then low else if high <s amt then high else amt)"

text \<open>The Arduino core function
  \<^verbatim>\<open>long map(long x, long in_min, long in_max, long out_min, long out_max)
  { return (x - in_min) * (out_max - out_min) / (in_max - in_min) + out_min; }\<close>
  The division by \<open>in_max - in_min = 0\<close> is undefined in C; it is the value \<open>None\<close> here.\<close>

definition arduino_map :: "clong \<Rightarrow> clong \<Rightarrow> clong \<Rightarrow> clong \<Rightarrow> clong \<Rightarrow> clong option" where
  "arduino_map x in_min in_max out_min out_max =
     (if in_max - in_min = 0 then None
      else Some (c_div ((x - in_min) * (out_max - out_min)) (in_max - in_min) + out_min))"

text \<open>The call \<open>map(a, b, c, d, e)\<close> with \<open>int\<close> arguments and an \<open>int\<close> result: the
  arguments are sign-extended to \<open>long\<close>, the result is truncated to 16 bits.\<close>

definition map_int :: "cint \<Rightarrow> cint \<Rightarrow> cint \<Rightarrow> cint \<Rightarrow> cint \<Rightarrow> cint option" where
  "map_int x in_min in_max out_min out_max =
     map_option ucast
       (arduino_map (scast x) (scast in_min) (scast in_max) (scast out_min) (scast out_max))"

subsection \<open>The EEPROM\<close>

text \<open>\<open>EEPROM.put(addr, v)\<close> and \<open>EEPROM.get(addr, v)\<close> for a 2-byte \<open>int\<close>: the low byte
  is at \<open>addr\<close>, the high byte at \<open>addr + 1\<close> (AVR is little-endian).\<close>

type_synonym eeprom_mem = "nat \<Rightarrow> 8 word"

definition EEPROM_put :: "eeprom_mem \<Rightarrow> nat \<Rightarrow> cint \<Rightarrow> eeprom_mem" where
  "EEPROM_put m a v = m(a := ucast v, a + 1 := ucast (drop_bit 8 v))"

definition EEPROM_get :: "eeprom_mem \<Rightarrow> nat \<Rightarrow> cint" where
  "EEPROM_get m a = or (push_bit 8 (ucast (m (a + 1)))) (ucast (m a))"

subsection \<open>State\<close>

text \<open>What the display and the buzzer are asked to do, in order. \<open>Render c m s mx p\<close> is one
  call of \<open>updateDisplay\<close>: \<open>c\<close> is \<open>countdownStarted\<close> (status "Contagem" or "Configurar"),
  \<open>m\<close> and \<open>s\<close> the time shown, \<open>mx\<close> the \<open>in_max\<close> argument given to \<open>map\<close> and \<open>p\<close>
  the width of the progress bar (\<open>None\<close> when \<open>map\<close> divided by zero).\<close>

datatype out_event =
    Splash
  | StartupSound
  | Render bool cint cint cint "cint option"
  | ScreenFinished
  | ScreenAborted
  | Alarm
  | CancelSound

text \<open>Where the main program is between two polls: at the top of \<open>loop()\<close>, or inside the
  busy-wait \<open>while (!isButtonPressed()) {}\<close> of \<open>countdownFinished\<close> or of
  \<open>abortCountdown\<close>.\<close>

datatype control = InLoop | WaitFinished | WaitAborted

record state =
  encoderPos :: cint
  lastReportedPos :: cint
  rotating :: bool
  seconds :: cint
  minutes :: cint
  initialTotalSeconds :: cint
  countdownStarted :: bool
  lastCountdownUpdate :: ulong
  lastButtonPress :: ulong
  lastEncoderChange :: ulong
  relay :: bool
  eeprom :: eeprom_mem
  out :: "out_event list"
  pc :: control

text \<open>What one poll reads from the environment: the level of the button pin and the value
  of each \<open>millis()\<close> call the poll can make, one field per call site. No relation between
  the readings is assumed.\<close>

record inputs =
  sw_low :: bool      \<comment> \<open>\<open>digitalRead(ENCODER_SW) == LOW\<close>\<close>
  t_enc :: ulong      \<comment> \<open>\<open>millis()\<close> in the encoder block of \<open>loop\<close>\<close>
  t_btn :: ulong      \<comment> \<open>first \<open>millis()\<close> of \<open>isButtonPressed\<close>\<close>
  t_acc :: ulong      \<comment> \<open>second \<open>millis()\<close> of \<open>isButtonPressed\<close>\<close>
  t_start :: ulong    \<comment> \<open>\<open>millis()\<close> when the countdown starts\<close>
  t_chk :: ulong      \<comment> \<open>\<open>millis()\<close> in the test of the countdown block\<close>
  t_tick :: ulong     \<comment> \<open>\<open>millis()\<close> stored by the countdown block\<close>

subsection \<open>The functions of the sketch\<close>

definition doEncoder :: "bool \<Rightarrow> bool \<Rightarrow> state \<Rightarrow> state" where
  "doEncoder clk dt s =
     (if clk = dt then s\<lparr>encoderPos := encoderPos s + 1\<rparr>
      else s\<lparr>encoderPos := encoderPos s - 1\<rparr>)"

definition updateDisplay :: "state \<Rightarrow> state" where
  "updateDisplay s =
     (let totalSeconds = minutes s * 60 + seconds s;
          in_max = (if countdownStarted s then initialTotalSeconds s else MAX_TIME);
          progress = map_int totalSeconds 0 in_max 0 SCREEN_WIDTH
      in s\<lparr>out := out s @ [Render (countdownStarted s) (minutes s) (seconds s) in_max progress]\<rparr>)"

definition isButtonPressed :: "inputs \<Rightarrow> state \<Rightarrow> bool \<times> state" where
  "isButtonPressed i s =
     (if sw_low i then
        if DEBOUNCE_DELAY < t_btn i - lastButtonPress s
        then (True, s\<lparr>lastButtonPress := t_acc i\<rparr>)
        else (False, s)
      else (False, s))"

definition saveLastConfiguration :: "state \<Rightarrow> state" where
  "saveLastConfiguration s =
     (let totalSeconds = minutes s * 60 + seconds s
      in s\<lparr>eeprom := EEPROM_put (eeprom s) EEPROM_ADDRESS totalSeconds\<rparr>)"

definition loadLastConfiguration :: "state \<Rightarrow> state" where
  "loadLastConfiguration s =
     (let totalSeconds = EEPROM_get (eeprom s) EEPROM_ADDRESS
      in if MIN_TIME \<le>s totalSeconds \<and> totalSeconds \<le>s MAX_TIME
         then s\<lparr>minutes := c_div totalSeconds 60, seconds := c_mod totalSeconds 60\<rparr>
         else s\<lparr>minutes := 5, seconds := 0\<rparr>)"

definition resetTimer :: "state \<Rightarrow> state" where
  "resetTimer s = updateDisplay (s\<lparr>countdownStarted := False, encoderPos := lastReportedPos s\<rparr>)"

text \<open>\<open>countdownFinished\<close> and \<open>abortCountdown\<close> up to their busy-wait: the relay is
  switched off, the screen drawn, the tune played, and the program waits.\<close>

definition countdownFinished :: "state \<Rightarrow> state" where
  "countdownFinished s =
     s\<lparr>relay := False, out := out s @ [ScreenFinished, Alarm], pc := WaitFinished\<rparr>"

definition abortCountdown :: "state \<Rightarrow> state" where
  "abortCountdown s =
     s\<lparr>relay := False, out := out s @ [ScreenAborted, CancelSound], pc := WaitAborted\<rparr>"

text \<open>The encoder block of \<open>loop\<close>: \<open>if (lastReportedPos != encoderPos) { ... }\<close>.\<close>

definition encoder_block :: "inputs \<Rightarrow> state \<Rightarrow> state" where
  "encoder_block i s =
     (if lastReportedPos s \<noteq> encoderPos s then
        (let s1 =
           (if \<not> countdownStarted s then
              (let increment = (if t_enc i - lastEncoderChange s < FAST_THRESHOLD then 10 else 1);
                   s' = s\<lparr>lastEncoderChange := t_enc i\<rparr>;
                   totalSeconds = constrain
                     (minutes s' * 60 + seconds s' + (encoderPos s' - lastReportedPos s') * increment)
                     MIN_TIME MAX_TIME
               in saveLastConfiguration (updateDisplay
                    (s'\<lparr>minutes := c_div totalSeconds 60, seconds := c_mod totalSeconds 60\<rparr>)))
            else s)
         in s1\<lparr>lastReportedPos := encoderPos s1\<rparr>)
      else s)"

text \<open>The countdown block of \<open>loop\<close>: \<open>if (countdownStarted) { ... }\<close>. When the time is
  over it ends inside \<open>countdownFinished\<close>.\<close>

definition countdown_block :: "inputs \<Rightarrow> state \<Rightarrow> state" where
  "countdown_block i s =
     (if countdownStarted s then
        if 1000 \<le> t_chk i - lastCountdownUpdate s then
          (let s1 = s\<lparr>lastCountdownUpdate := t_tick i\<rparr>
           in if 0 <s seconds s1 \<or> 0 <s minutes s1 then
                updateDisplay
                  (if seconds s1 = 0 then s1\<lparr>minutes := minutes s1 - 1, seconds := 59\<rparr>
                   else s1\<lparr>seconds := seconds s1 - 1\<rparr>)
              else countdownFinished s1)
        else s
      else s)"

text \<open>One run of \<open>loop()\<close>, from its first statement to its return or to the busy-wait it
  enters.\<close>

definition loop :: "inputs \<Rightarrow> state \<Rightarrow> state" where
  "loop i s =
     (let s1 = encoder_block i (s\<lparr>rotating := True\<rparr>);
          (pressed, s2) = isButtonPressed i s1
      in if pressed then
           if \<not> countdownStarted s2 then
             countdown_block i
               (s2\<lparr>countdownStarted := True,
                   initialTotalSeconds := minutes s2 * 60 + seconds s2,
                   relay := True,
                   lastCountdownUpdate := t_start i\<rparr>)
           else abortCountdown s2
         else countdown_block i s2)"

text \<open>One turn of a busy-wait \<open>while (!isButtonPressed()) {}\<close>. When the press is accepted,
  \<open>resetTimer\<close> runs and the function returns into \<open>loop\<close>: after \<open>abortCountdown\<close> the
  countdown block of \<open>loop\<close> is still to run, after \<open>countdownFinished\<close> \<open>loop\<close> returns.\<close>

definition wait_poll :: "inputs \<Rightarrow> state \<Rightarrow> state" where
  "wait_poll i s =
     (let (pressed, s1) = isButtonPressed i s
      in if pressed then
           (case pc s1 of
              WaitAborted \<Rightarrow> countdown_block i ((resetTimer s1)\<lparr>pc := InLoop\<rparr>)
            | _ \<Rightarrow> (resetTimer s1)\<lparr>pc := InLoop\<rparr>)
         else s1)"

subsection \<open>Start-up\<close>

definition power_on :: "eeprom_mem \<Rightarrow> state" where
  "power_on ee =
     \<lparr>encoderPos = 0, lastReportedPos = 0, rotating = False, seconds = 0, minutes = 0,
      initialTotalSeconds = 0, countdownStarted = False, lastCountdownUpdate = 0,
      lastButtonPress = 0, lastEncoderChange = 0, relay = False, eeprom = ee, out = [],
      pc = InLoop\<rparr>"

definition showSplashScreen :: "state \<Rightarrow> state" where
  "showSplashScreen s = s\<lparr>out := out s @ [Splash]\<rparr>"

definition playStartupSound :: "state \<Rightarrow> state" where
  "playStartupSound s = s\<lparr>out := out s @ [StartupSound]\<rparr>"

text \<open>\<open>setup()\<close>: when \<open>display.begin\<close> fails it never returns (\<open>for(;;);\<close>), which is the
  value \<open>None\<close>. The output pins are low after \<open>pinMode(.., OUTPUT)\<close>.\<close>

definition setup_sketch :: "bool \<Rightarrow> eeprom_mem \<Rightarrow> state option" where
  "setup_sketch display_ok ee =
     (if \<not> display_ok then None
      else Some (playStartupSound (showSplashScreen (loadLastConfiguration (power_on ee)))))"

subsection \<open>Executions\<close>

text \<open>An execution is a series of events: the interrupt handler \<open>doEncoder\<close>, with the
  levels it reads on the two encoder pins, and polls of the main program. A poll is one run
  of \<open>loop()\<close> or one turn of a busy-wait. The handler is taken to run between two polls;
  in the sketch it can also run between two statements of a poll, which only moves the
  point at which \<open>encoderPos\<close> is read.\<close>

datatype event = Isr bool bool | Poll inputs

definition step :: "event \<Rightarrow> state \<Rightarrow> state" where
  "step e s =
     (case e of
        Isr clk dt \<Rightarrow> doEncoder clk dt s
      | Poll i \<Rightarrow> (case pc s of InLoop \<Rightarrow> loop i s | _ \<Rightarrow> wait_poll i s))"

fun run :: "event list \<Rightarrow> state \<Rightarrow> state" where
  "run [] s = s"
| "run (e # es) s = run es (step e s)"

datatype timer_state = Configuring | Counting | Finished | Aborted

definition timerState :: "state \<Rightarrow> timer_state" where
  "timerState s =
     (case pc s of
        WaitFinished \<Rightarrow> Finished
      | WaitAborted \<Rightarrow> Aborted
      | InLoop \<Rightarrow> (if countdownStarted s then Counting else Configuring))"

definition total :: "state \<Rightarrow> int" where
  "total s = sint (minutes s) * 60 + sint (seconds s)"

subsection \<open>The invariant of the reachable states\<close>

text \<open>A \<open>Render\<close> request made while counting is well-formed when \<open>map\<close> got a positive
  \<open>in_max\<close> and so did not divide by zero.\<close>

definition render_ok :: "out_event \<Rightarrow> bool" where
  "render_ok e = (case e of Render c m s mx p \<Rightarrow> (if c then 1 \<le>s mx \<and> p \<noteq> None else True) | _ \<Rightarrow> True)"

definition invariant :: "state \<Rightarrow> bool" where
  "invariant s \<longleftrightarrow>
     0 \<le> sint (seconds s) \<and> sint (seconds s) \<le> 59 \<and> 0 \<le> sint (minutes s) \<and> total s \<le> 1800 \<and>
     relay s = (pc s = InLoop \<and> countdownStarted s) \<and>
     (pc s \<noteq> InLoop \<longrightarrow> countdownStarted s) \<and>
     (countdownStarted s \<longrightarrow>
        total s \<le> sint (initialTotalSeconds s) \<and> sint (initialTotalSeconds s) \<le> 1800) \<and>
     list_all render_ok (out s)"

subsection \<open>The adjustment, in the words of the specification\<close>

text \<open>\<open>new_total = current_total + signed_delta * increment\<close>, clamped to
  \<open>[MIN_TIME, MAX_TIME]\<close>, at the type \<open>int\<close> of the sketch. It is compared with
  \<open>encoder_block\<close> below.\<close>

definition spec_adjust :: "cint \<Rightarrow> cint \<Rightarrow> cint \<Rightarrow> cint" where
  "spec_adjust current_total signed_delta increment =
     constrain (current_total + signed_delta * increment) MIN_TIME MAX_TIME"

subsection \<open>Sample inputs\<close>

text \<open>An EEPROM that holds the \<open>int\<close> \<open>v\<close> at \<open>EEPROM_ADDRESS\<close> (erased cells read 255), a
  poll in which every \<open>millis()\<close> call returns \<open>t\<close>, and the events that cannot be an
  accepted press: the interrupt, and a poll that finds the button released.\<close>

definition ee_of :: "cint \<Rightarrow> eeprom_mem" where
  "ee_of v = EEPROM_put (\<lambda>a. 255) EEPROM_ADDRESS v"

definition poll_at :: "bool \<Rightarrow> ulong \<Rightarrow> inputs" where
  "poll_at low t =
     \<lparr>sw_low = low, t_enc = t, t_btn = t, t_acc = t, t_start = t, t_chk = t, t_tick = t\<rparr>"

definition released :: "event \<Rightarrow> bool" where
  "released e = (case e of Isr clk dt \<Rightarrow> True | Poll i \<Rightarrow> \<not> sw_low i)"

text \<open>The state in which \<open>loop()\<close> first runs when the display works and the EEPROM
  holds \<open>v\<close>.\<close>

definition started :: "cint \<Rightarrow> state" where
  "started v = the (setup_sketch True (ee_of v))"

text \<open>The answers of \<open>isButtonPressed\<close> to a series of polls.\<close>

fun poll_all :: "inputs list \<Rightarrow> state \<Rightarrow> bool list" where
  "poll_all [] s = []"
| "poll_all (i # is) s = fst (isButtonPressed i s) # poll_all is (snd (isButtonPressed i s))"

section \<open>Arithmetic of the 16-bit values\<close>

lemma sint16_small: "- 32768 \<le> k \<Longrightarrow> k < 32768 \<Longrightarrow> sint (word_of_int k :: cint) = k"
  by (simp add: sint_sbintrunc' signed_take_bit_int_eq_self)

lemma constrain_range:
  "1 \<le> sint (constrain x MIN_TIME MAX_TIME) \<and> sint (constrain x MIN_TIME MAX_TIME) \<le> 1800"
  by (auto simp: constrain_def MIN_TIME_def MAX_TIME_def word_sless_alt)

lemma total_word:
  assumes "0 \<le> sint m" "sint m \<le> 30" "0 \<le> sint s" "sint s \<le> 59"
  shows "sint (m * 60 + s :: cint) = sint m * 60 + sint s"
proof -
  have "sint (m * 60 :: cint) = sint m * 60"
    using assms by (simp add: sint_word_mult signed_take_bit_int_eq_self)
  then show ?thesis
    using assms by (simp add: sint_word_add signed_take_bit_int_eq_self)
qed

lemma split_div:
  assumes "0 \<le> sint t" "sint t \<le> 1800"
  shows "sint (c_div t (60 :: cint)) = sint t div 60"
  using assms
  apply (simp add: c_div_def)
  apply (subst sint16_small)
  apply (auto simp: signed_divide_int_def sgn_if)
  done

lemma split_mod:
  assumes "0 \<le> sint t" "sint t \<le> 1800"
  shows "sint (c_mod t (60 :: cint)) = sint t mod 60"
  using assms
  apply (simp add: c_mod_def)
  apply (subst sint16_small)
  apply (auto simp: signed_modulo_int_def sgn_if)
  done

lemma map_int_None: "map_int x 0 mx 0 w = None \<longleftrightarrow> mx = 0"
proof -
  have up: "sint (scast mx :: clong) = sint mx"
    by (rule sint_up_scast) (simp add: is_up)
  have "(scast mx :: clong) = 0 \<longleftrightarrow> mx = 0"
  proof
    assume "(scast mx :: clong) = 0"
    with up have "sint mx = sint (0 :: cint)" by simp
    then show "mx = 0" by (rule signed_word_eqI)
  qed simp
  then show ?thesis by (simp add: map_int_def arduino_map_def)
qed

lemma dec_pos: "0 < sint (x :: cint) \<Longrightarrow> sint (x - 1) = sint x - 1"
  using sint_lt [of x] by (simp add: sint_word_diff signed_take_bit_int_eq_self)

lemma invariant_doEncoder: "invariant s \<Longrightarrow> invariant (doEncoder clk dt s)"
  by (simp add: invariant_def doEncoder_def total_def)

lemma invariant_power_on: "invariant (power_on ee)"
  by (simp add: invariant_def power_on_def total_def)

lemma load_range:
  "0 \<le> sint (seconds (loadLastConfiguration s)) \<and> sint (seconds (loadLastConfiguration s)) \<le> 59 \<and>
   0 \<le> sint (minutes (loadLastConfiguration s)) \<and>
   1 \<le> total (loadLastConfiguration s) \<and> total (loadLastConfiguration s) \<le> 1800"
  by (auto simp: loadLastConfiguration_def Let_def total_def MIN_TIME_def MAX_TIME_def
      word_sle_eq split_div split_mod)

lemma split_total:
  assumes "0 \<le> sint t" "sint t \<le> 1800"
  shows "sint (c_div t (60 :: cint)) * 60 + sint (c_mod t (60 :: cint)) = sint t"
    and "0 \<le> sint (c_mod t (60 :: cint))" and "sint (c_mod t (60 :: cint)) \<le> 59"
    and "0 \<le> sint (c_div t (60 :: cint))"
  using assms by (simp_all add: split_div split_mod)

lemma total_eq: "invariant s \<Longrightarrow> sint (minutes s * 60 + seconds s) = total s"
  unfolding total_def by (rule total_word) (simp_all add: invariant_def total_def)

lemma invariant_updateDisplay:
  assumes "invariant s" "countdownStarted s \<Longrightarrow> 1 \<le> sint (initialTotalSeconds s)"
  shows "invariant (updateDisplay s)"
  using assms
  by (auto simp: invariant_def updateDisplay_def Let_def total_def render_ok_def map_int_None word_sle_eq)

lemma split_constrain:
  "0 \<le> sint (c_mod (constrain x MIN_TIME MAX_TIME) 60)"
  "sint (c_mod (constrain x MIN_TIME MAX_TIME) 60) \<le> 59"
  "0 \<le> sint (c_div (constrain x MIN_TIME MAX_TIME) 60)"
  "sint (c_div (constrain x MIN_TIME MAX_TIME) 60) * 60 + sint (c_mod (constrain x MIN_TIME MAX_TIME) 60)
     = sint (constrain x MIN_TIME MAX_TIME)"
  using constrain_range [of x] by (simp_all add: split_total)

lemma invariant_encoder_block: "invariant s \<Longrightarrow> invariant (encoder_block i s)"
  using constrain_range
  by (auto simp: invariant_def encoder_block_def Let_def saveLastConfiguration_def updateDisplay_def
      total_def render_ok_def split_constrain simp del: mult_numeral_left_semiring_numeral)

lemma invariant_countdownFinished: "invariant s \<Longrightarrow> countdownStarted s \<Longrightarrow> invariant (countdownFinished s)"
  by (simp add: invariant_def countdownFinished_def total_def render_ok_def)

lemma invariant_abortCountdown: "invariant s \<Longrightarrow> countdownStarted s \<Longrightarrow> invariant (abortCountdown s)"
  by (simp add: invariant_def abortCountdown_def total_def render_ok_def)

lemma invariant_tick:
  assumes "invariant s" "pc s = InLoop" "countdownStarted s" "0 <s seconds s \<or> 0 <s minutes s"
  shows "invariant (updateDisplay
           (if seconds s = 0 then s\<lparr>minutes := minutes s - 1, seconds := 59\<rparr>
            else s\<lparr>seconds := seconds s - 1\<rparr>))"
proof (rule invariant_updateDisplay)
  show "invariant (if seconds s = 0 then s\<lparr>minutes := minutes s - 1, seconds := 59\<rparr>
            else s\<lparr>seconds := seconds s - 1\<rparr>)"
  proof (cases "seconds s = 0")
    case True
    with assms have "0 < sint (minutes s)" by (simp add: word_sless_alt)
    with assms True show ?thesis by (simp add: invariant_def total_def dec_pos)
  next
    case False
    with assms have "0 < sint (seconds s)"
      by (metis invariant_def order_le_less signed_word_eqI sint_0)
    with assms False show ?thesis by (simp add: invariant_def total_def dec_pos)
  qed
next
  have "0 < total s" using assms by (auto simp: invariant_def total_def word_sless_alt)
  then show "1 \<le> sint (initialTotalSeconds
      (if seconds s = 0 then s\<lparr>minutes := minutes s - 1, seconds := 59\<rparr>
            else s\<lparr>seconds := seconds s - 1\<rparr>))"
    using assms by (auto simp: invariant_def)
qed

lemma invariant_countdown_block:
  assumes "invariant s" "pc s = InLoop"
  shows "invariant (countdown_block i s)"
proof -
  let ?s1 = "s\<lparr>lastCountdownUpdate := t_tick i\<rparr>"
  have s1: "invariant ?s1" using assms by (simp add: invariant_def total_def)
  show ?thesis
  proof (cases "countdownStarted s \<and> 1000 \<le> t_chk i - lastCountdownUpdate s")
    case False
    then show ?thesis using assms by (auto simp: countdown_block_def)
  next
    case due: True
    show ?thesis
    proof (cases "0 <s seconds s \<or> 0 <s minutes s")
      case True
      then have "invariant (updateDisplay
           (if seconds ?s1 = 0 then ?s1\<lparr>minutes := minutes ?s1 - 1, seconds := 59\<rparr>
            else ?s1\<lparr>seconds := seconds ?s1 - 1\<rparr>))"
        using assms due by (intro invariant_tick s1) simp_all
      then show ?thesis using due True by (simp add: countdown_block_def Let_def)
    next
      case False
      have "invariant (countdownFinished ?s1)"
        using s1 due by (intro invariant_countdownFinished) simp_all
      then show ?thesis using due False by (simp add: countdown_block_def Let_def)
    qed
  qed
qed

lemma isButtonPressed_cases:
  "isButtonPressed i s = (True, s\<lparr>lastButtonPress := t_acc i\<rparr>) \<or> isButtonPressed i s = (False, s)"
  by (simp add: isButtonPressed_def)

lemma invariant_lastButtonPress: "invariant s \<Longrightarrow> invariant (s\<lparr>lastButtonPress := t\<rparr>)"
  by (simp add: invariant_def total_def)

lemma invariant_isButtonPressed: "invariant s \<Longrightarrow> invariant (snd (isButtonPressed i s))"
  using isButtonPressed_cases [of i s] by (auto simp: invariant_lastButtonPress)

lemma isButtonPressed_frame:
  "pc (snd (isButtonPressed i s)) = pc s"
  "countdownStarted (snd (isButtonPressed i s)) = countdownStarted s"
  using isButtonPressed_cases [of i s] by auto

lemma encoder_block_frame:
  "pc (encoder_block i s) = pc s"
  "countdownStarted (encoder_block i s) = countdownStarted s"
  by (simp_all add: encoder_block_def Let_def saveLastConfiguration_def updateDisplay_def)

lemma invariant_start:
  assumes "invariant s" "pc s = InLoop" "\<not> countdownStarted s"
  shows "invariant (s\<lparr>countdownStarted := True, initialTotalSeconds := minutes s * 60 + seconds s,
                relay := True, lastCountdownUpdate := t\<rparr>)"
  using assms total_eq [OF assms(1)] by (simp add: invariant_def total_def)

lemma invariant_loop:
  assumes "invariant s" "pc s = InLoop"
  shows "invariant (loop i s)"
proof -
  let ?s1 = "encoder_block i (s\<lparr>rotating := True\<rparr>)"
  let ?s2 = "snd (isButtonPressed i ?s1)"
  have "invariant (s\<lparr>rotating := True\<rparr>)" using assms by (simp add: invariant_def total_def)
  then have "invariant ?s1" by (rule invariant_encoder_block)
  then have s2: "invariant ?s2" by (rule invariant_isButtonPressed)
  have pc2: "pc ?s2 = InLoop" using assms by (simp add: isButtonPressed_frame encoder_block_frame)
  show ?thesis
    using s2 pc2
    by (auto simp: loop_def Let_def split_beta intro!: invariant_countdown_block invariant_start invariant_abortCountdown)
qed

lemma invariant_resetTimer:
  assumes "invariant s" "pc s \<noteq> InLoop"
  shows "invariant ((resetTimer s)\<lparr>pc := InLoop\<rparr>)"
  using assms
  by (auto simp: invariant_def resetTimer_def updateDisplay_def Let_def total_def render_ok_def)

lemma invariant_wait_poll:
  assumes "invariant s" "pc s \<noteq> InLoop"
  shows "invariant (wait_poll i s)"
proof -
  let ?s1 = "snd (isButtonPressed i s)"
  have s1: "invariant ?s1" using assms by (intro invariant_isButtonPressed)
  have pc1: "pc ?s1 \<noteq> InLoop" using assms by (simp add: isButtonPressed_frame)
  have r: "invariant ((resetTimer ?s1)\<lparr>pc := InLoop\<rparr>)" using s1 pc1 by (rule invariant_resetTimer)
  then have "invariant (countdown_block i ((resetTimer ?s1)\<lparr>pc := InLoop\<rparr>))"
    by (rule invariant_countdown_block) simp
  with r s1 show ?thesis
    by (auto simp: wait_poll_def split_beta split: control.splits)
qed

lemma invariant_step: "invariant s \<Longrightarrow> invariant (step e s)"
  by (auto simp: step_def invariant_doEncoder invariant_loop invariant_wait_poll split: event.splits control.splits)

lemma invariant_run: "invariant s \<Longrightarrow> invariant (run evs s)"
  by (induction evs arbitrary: s) (simp_all add: invariant_step)

lemma invariant_setup: "setup_sketch ok ee = Some s \<Longrightarrow> invariant s"
  using load_range [of "power_on ee"]
  by (auto simp: setup_sketch_def playStartupSound_def showSplashScreen_def invariant_def total_def
      loadLastConfiguration_def power_on_def render_ok_def Let_def split: if_splits)

lemma setup_started: "setup_sketch True (ee_of v) = Some (started v)"
  by (simp add: started_def setup_sketch_def)

lemma invariant_reachable: "setup_sketch ok ee = Some s0 \<Longrightarrow> invariant (run evs s0)"
  by (intro invariant_run invariant_setup)

section \<open>The steps of the program\<close>

lemma EEPROM_get_put: "EEPROM_get (EEPROM_put m a v) a = v"
  unfolding EEPROM_get_def EEPROM_put_def
  by (rule bit_word_eqI) (auto simp: bit_simps)

lemma join_split:
  assumes "0 \<le> sint t" "sint t \<le> 1800"
  shows "c_div t 60 * 60 + c_mod t 60 = (t :: cint)"
proof (rule signed_word_eqI)
  have "sint (c_div t 60 * 60 + c_mod t 60) = sint (c_div t 60) * 60 + sint (c_mod t 60)"
    using assms by (intro total_word) (simp_all add: split_div split_mod)
  then show "sint (c_div t 60 * 60 + c_mod t 60) = sint t"
    using assms by (simp add: split_total)
qed

lemma split_join:
  assumes "0 \<le> sint m" "0 \<le> sint s" "sint s \<le> 59" "sint m * 60 + sint s \<le> 1800"
  shows "c_div (m * 60 + s) 60 = (m :: cint)" and "c_mod (m * 60 + s) 60 = (s :: cint)"
proof -
  have t: "sint (m * 60 + s) = sint m * 60 + sint s"
    using assms by (intro total_word) simp_all
  have "sint (c_div (m * 60 + s) 60) = sint m"
    using assms t by (simp add: split_div)
  then show "c_div (m * 60 + s) 60 = m" by (rule signed_word_eqI)
  have "sint (c_mod (m * 60 + s) 60) = sint s"
    using assms t by (simp add: split_mod)
  then show "c_mod (m * 60 + s) 60 = s" by (rule signed_word_eqI)
qed

lemma encoder_block_counting:
  "countdownStarted s \<Longrightarrow> encoder_block i s = s\<lparr>lastReportedPos := encoderPos s\<rparr>"
  by (simp add: encoder_block_def)

lemma encoder_block_lastButtonPress: "lastButtonPress (encoder_block i s) = lastButtonPress s"
  by (simp add: encoder_block_def Let_def saveLastConfiguration_def updateDisplay_def)

lemma loop_released:
  "\<not> sw_low i \<Longrightarrow> loop i s = countdown_block i (encoder_block i (s\<lparr>rotating := True\<rparr>))"
  by (simp add: loop_def isButtonPressed_def)

lemma loop_accepted:
  assumes "sw_low i" "DEBOUNCE_DELAY < t_btn i - lastButtonPress s"
  shows "loop i s =
     (let s2 = (encoder_block i (s\<lparr>rotating := True\<rparr>))\<lparr>lastButtonPress := t_acc i\<rparr>
      in if \<not> countdownStarted s2 then
           countdown_block i
             (s2\<lparr>countdownStarted := True, initialTotalSeconds := minutes s2 * 60 + seconds s2,
                 relay := True, lastCountdownUpdate := t_start i\<rparr>)
         else abortCountdown s2)"
  using assms by (simp add: loop_def isButtonPressed_def encoder_block_lastButtonPress Let_def)

lemma timerState_simps:
  "timerState s = Counting \<longleftrightarrow> pc s = InLoop \<and> countdownStarted s"
  "timerState s = Configuring \<longleftrightarrow> pc s = InLoop \<and> \<not> countdownStarted s"
  "timerState s = Finished \<longleftrightarrow> pc s = WaitFinished"
  "timerState s = Aborted \<longleftrightarrow> pc s = WaitAborted"
  by (auto simp: timerState_def split: control.splits)

lemma wait_released:
  assumes "pc s \<noteq> InLoop" "released e"
  shows "\<exists>p. step e s = s\<lparr>encoderPos := p\<rparr>"
proof (cases e)
  case (Isr clk dt)
  then show ?thesis by (auto simp: step_def doEncoder_def)
next
  case (Poll i)
  with assms have "step e s = s"
    by (auto simp: step_def wait_poll_def isButtonPressed_def released_def split: control.splits)
  then have "step e s = s\<lparr>encoderPos := encoderPos s\<rparr>" by simp
  then show ?thesis ..
qed

lemma wait_run_released:
  assumes "pc s \<noteq> InLoop" "list_all released w"
  shows "\<exists>p. run w s = s\<lparr>encoderPos := p\<rparr>"
  using assms
proof (induction w arbitrary: s)
  case Nil
  have "run [] s = s\<lparr>encoderPos := encoderPos s\<rparr>" by simp
  then show ?case ..
next
  case (Cons e w)
  then obtain p where p: "step e s = s\<lparr>encoderPos := p\<rparr>"
    using wait_released [of s e] by auto
  from Cons have "\<exists>q. run w (s\<lparr>encoderPos := p\<rparr>) = s\<lparr>encoderPos := p\<rparr>\<lparr>encoderPos := q\<rparr>"
    by (intro Cons.IH) simp_all
  then show ?case by (auto simp: p)
qed

lemma encoder_block_adjust:
  assumes "\<not> countdownStarted s" "lastReportedPos s \<noteq> encoderPos s"
  shows "encoder_block i s =
    (let T = spec_adjust (minutes s * 60 + seconds s) (encoderPos s - lastReportedPos s)
               (if t_enc i - lastEncoderChange s < FAST_THRESHOLD then 10 else 1);
         s' = s\<lparr>lastEncoderChange := t_enc i, minutes := c_div T 60, seconds := c_mod T 60\<rparr>
     in (saveLastConfiguration (updateDisplay s'))\<lparr>lastReportedPos := encoderPos s\<rparr>)"
  using assms
  by (simp add: encoder_block_def spec_adjust_def Let_def saveLastConfiguration_def updateDisplay_def)

lemma encoder_block_idle:
  "lastReportedPos s = encoderPos s \<Longrightarrow> encoder_block i s = s"
  by (simp add: encoder_block_def)

lemma loop_configuring_released:
  "\<not> sw_low i \<Longrightarrow> \<not> countdownStarted s \<Longrightarrow> loop i s = encoder_block i (s\<lparr>rotating := True\<rparr>)"
  by (simp add: loop_released countdown_block_def encoder_block_frame)

lemma spec_adjust_range:
  "1 \<le> sint (spec_adjust a d k)" "sint (spec_adjust a d k) \<le> 1800"
  using constrain_range [of "a + d * k"] by (simp_all add: spec_adjust_def)

lemma adjust_fields:
  fixes s :: state and i :: inputs
  assumes "\<not> countdownStarted s" "lastReportedPos s \<noteq> encoderPos s"
  defines "T \<equiv> spec_adjust (minutes s * 60 + seconds s) (encoderPos s - lastReportedPos s)
               (if t_enc i - lastEncoderChange s < FAST_THRESHOLD then 10 else 1)"
  shows "minutes (encoder_block i s) = c_div T 60"
    and "seconds (encoder_block i s) = c_mod T 60"
    and "minutes (encoder_block i s) * 60 + seconds (encoder_block i s) = T"
    and "EEPROM_get (eeprom (encoder_block i s)) EEPROM_ADDRESS = T"
    and "total (encoder_block i s) = sint T"
    and "lastReportedPos (encoder_block i s) = encoderPos s"
    and "encoderPos (encoder_block i s) = encoderPos s"
    and "lastEncoderChange (encoder_block i s) = t_enc i"
proof -
  have r: "0 \<le> sint T" "sint T \<le> 1800"
    using spec_adjust_range [of "minutes s * 60 + seconds s" "encoderPos s - lastReportedPos s"
        "if t_enc i - lastEncoderChange s < FAST_THRESHOLD then 10 else 1"]
    by (simp_all add: T_def)
  have j: "c_div T 60 * 60 + c_mod T 60 = T" using r by (rule join_split)
  have e: "encoder_block i s =
     (saveLastConfiguration (updateDisplay
        (s\<lparr>lastEncoderChange := t_enc i, minutes := c_div T 60, seconds := c_mod T 60\<rparr>)))
       \<lparr>lastReportedPos := encoderPos s\<rparr>"
    using encoder_block_adjust [OF assms(1,2), of i] by (simp add: Let_def T_def)
  show "minutes (encoder_block i s) = c_div T 60"
    by (simp add: e saveLastConfiguration_def updateDisplay_def Let_def)
  show "seconds (encoder_block i s) = c_mod T 60"
    by (simp add: e saveLastConfiguration_def updateDisplay_def Let_def)
  show "minutes (encoder_block i s) * 60 + seconds (encoder_block i s) = T"
    by (simp add: e saveLastConfiguration_def updateDisplay_def Let_def j)
  show "EEPROM_get (eeprom (encoder_block i s)) EEPROM_ADDRESS = T"
    by (simp add: e saveLastConfiguration_def updateDisplay_def Let_def j EEPROM_get_put)
  show "total (encoder_block i s) = sint T"
    using r by (simp add: e saveLastConfiguration_def updateDisplay_def Let_def total_def split_total)
  show "lastReportedPos (encoder_block i s) = encoderPos s"
    by (simp add: e saveLastConfiguration_def updateDisplay_def Let_def)
  show "encoderPos (encoder_block i s) = encoderPos s"
    by (simp add: e saveLastConfiguration_def updateDisplay_def Let_def)
  show "lastEncoderChange (encoder_block i s) = t_enc i"
    by (simp add: e saveLastConfiguration_def updateDisplay_def Let_def)
qed

lemma configuring_released_step:
  assumes "timerState s = Configuring" "released e"
  shows "timerState (step e s) = Configuring \<and>
         (minutes (step e s) = minutes s \<and> seconds (step e s) = seconds s \<or>
          1 \<le> total (step e s) \<and> total (step e s) \<le> 1800)"
proof (cases e)
  case (Isr clk dt)
  then show ?thesis using assms by (simp add: step_def doEncoder_def timerState_simps)
next
  case (Poll i)
  from assms(1) have c: "pc s = InLoop" "\<not> countdownStarted s" by (simp_all add: timerState_simps)
  from Poll assms(2) have nl: "\<not> sw_low i" by (simp add: released_def)
  let ?r = "s\<lparr>rotating := True\<rparr>"
  have st: "step e s = encoder_block i ?r"
    using Poll c nl by (simp add: step_def loop_configuring_released)
  show ?thesis
  proof (cases "lastReportedPos s = encoderPos s")
    case True
    then show ?thesis using c by (simp add: st encoder_block_idle timerState_simps)
  next
    case False
    then have "total (encoder_block i ?r) =
        sint (spec_adjust (minutes ?r * 60 + seconds ?r) (encoderPos ?r - lastReportedPos ?r)
               (if t_enc i - lastEncoderChange ?r < FAST_THRESHOLD then 10 else 1))"
      using c by (intro adjust_fields) simp_all
    then have "1 \<le> total (encoder_block i ?r) \<and> total (encoder_block i ?r) \<le> 1800"
      by (simp add: spec_adjust_range)
    then show ?thesis using c by (simp add: st timerState_simps encoder_block_frame)
  qed
qed

lemma configuring_released_run:
  assumes "timerState s = Configuring" "list_all released evs"
  shows "timerState (run evs s) = Configuring \<and>
         (minutes (run evs s) = minutes s \<and> seconds (run evs s) = seconds s \<or>
          1 \<le> total (run evs s) \<and> total (run evs s) \<le> 1800)"
  using assms
proof (induction evs arbitrary: s)
  case Nil
  then show ?case by simp
next
  case (Cons e evs)
  then have s1: "timerState (step e s) = Configuring \<and>
         (minutes (step e s) = minutes s \<and> seconds (step e s) = seconds s \<or>
          1 \<le> total (step e s) \<and> total (step e s) \<le> 1800)"
    by (intro configuring_released_step) simp_all
  with Cons have "timerState (run evs (step e s)) = Configuring \<and>
         (minutes (run evs (step e s)) = minutes (step e s) \<and>
          seconds (run evs (step e s)) = seconds (step e s) \<or>
          1 \<le> total (run evs (step e s)) \<and> total (run evs (step e s)) \<le> 1800)"
    by (intro Cons.IH) simp_all
  with s1 show ?case by (auto simp: total_def)
qed

lemma sint_adjust_sum:
  fixes a d k :: cint
  assumes "0 \<le> sint a" "sint a \<le> 1800" "- 3000 \<le> sint d" "sint d \<le> 3000" "k = 1 \<or> k = 10"
  shows "sint (a + d * k) = sint a + sint d * sint k"
proof -
  from assms(5) have k: "sint k = 1 \<or> sint k = 10" by auto
  have m: "sint (d * k) = sint d * sint k"
    using assms(3,4) k by (auto simp: sint_word_mult signed_take_bit_int_eq_self)
  have "- 30000 \<le> sint d * sint k \<and> sint d * sint k \<le> 30000"
    using assms(3,4) k by auto
  then show ?thesis
    using assms(1,2) by (simp add: sint_word_add m signed_take_bit_int_eq_self)
qed

lemma sint_constrain:
  "sint (constrain x MIN_TIME MAX_TIME) = max 1 (min 1800 (sint x))"
  by (auto simp: constrain_def MIN_TIME_def MAX_TIME_def word_sless_alt)

lemma countdown_block_frame:
  "encoderPos (countdown_block i s) = encoderPos s"
  "lastReportedPos (countdown_block i s) = lastReportedPos s"
  by (simp_all add: countdown_block_def Let_def updateDisplay_def countdownFinished_def)

lemma countdown_block_strip:
  "minutes (countdown_block i (encoderPos_update f s)) = minutes (countdown_block i s)"
  "minutes (countdown_block i (lastReportedPos_update g s)) = minutes (countdown_block i s)"
  "minutes (countdown_block i (rotating_update h s)) = minutes (countdown_block i s)"
  "seconds (countdown_block i (encoderPos_update f s)) = seconds (countdown_block i s)"
  "seconds (countdown_block i (lastReportedPos_update g s)) = seconds (countdown_block i s)"
  "seconds (countdown_block i (rotating_update h s)) = seconds (countdown_block i s)"
  by (simp_all add: countdown_block_def Let_def updateDisplay_def countdownFinished_def)

lemma loop_counting:
  assumes "countdownStarted s"
  shows "loop i s =
     (let s1 = s\<lparr>rotating := True, lastReportedPos := encoderPos s\<rparr>
      in if sw_low i \<and> DEBOUNCE_DELAY < t_btn i - lastButtonPress s
         then abortCountdown (s1\<lparr>lastButtonPress := t_acc i\<rparr>)
         else countdown_block i s1)"
  using assms by (simp add: loop_def encoder_block_counting isButtonPressed_def Let_def)

lemma loop_counting_encoder:
  assumes "countdownStarted s"
  shows "minutes (loop i (s\<lparr>encoderPos := p, lastReportedPos := q\<rparr>)) = minutes (loop i s)"
    and "seconds (loop i (s\<lparr>encoderPos := p, lastReportedPos := q\<rparr>)) = seconds (loop i s)"
    and "encoderPos (loop i s) = encoderPos s"
    and "lastReportedPos (loop i s) = encoderPos s"
  using assms
  by (simp_all add: loop_counting Let_def abortCountdown_def countdown_block_frame
      countdown_block_strip)

lemma wait_poll_fields:
  assumes "pc s \<noteq> InLoop"
  shows "minutes (wait_poll i s) = minutes s" and "seconds (wait_poll i s) = seconds s"
    and "lastReportedPos (wait_poll i s) = lastReportedPos s"
    and "fst (isButtonPressed i s) \<Longrightarrow> encoderPos (wait_poll i s) = lastReportedPos s"
    and "fst (isButtonPressed i s) \<Longrightarrow> timerState (wait_poll i s) = Configuring"
    and "\<not> fst (isButtonPressed i s) \<Longrightarrow> wait_poll i s = s"
  using assms
  by (auto simp: wait_poll_def isButtonPressed_def resetTimer_def updateDisplay_def Let_def
      countdown_block_def timerState_simps split: control.splits if_splits)

section \<open>The relay\<close>

text \<open>
  C1. In every execution that starts with a successful start-up, at every poll boundary
  the relay is energized if and only if the timer is Counting, that is
  \<open>countdownStarted\<close> holds and the program is in \<open>loop\<close>, not in the busy-wait of
  \<open>countdownFinished\<close> or \<open>abortCountdown\<close>. So it is off in Configuring, Finished and
  Aborted.
\<close>

theorem relay_iff_counting:
  assumes "setup_sketch ok ee = Some s0"
  shows "(relay (run evs s0) \<longleftrightarrow> timerState (run evs s0) = Counting) \<and>
         (timerState (run evs s0) = Counting \<longleftrightarrow>
            countdownStarted (run evs s0) \<and> pc (run evs s0) = InLoop)"
proof -
  have "invariant (run evs s0)" using assms by (rule invariant_reachable)
  then show ?thesis by (auto simp: invariant_def timerState_def split: control.splits)
qed

text \<open>With 0:01 stored: a press at 4000 ms starts the countdown and the relay is on; a second
  press at 4400 ms aborts it and the relay is off.\<close>

theorem relay_iff_counting_witness:
  "setup_sketch True (ee_of 1) = Some (started 1) \<and>
   relay (run [Poll (poll_at True 4000)] (started 1)) \<and>
   timerState (run [Poll (poll_at True 4000)] (started 1)) = Counting \<and>
   \<not> relay (run [Poll (poll_at True 4000), Poll (poll_at True 4400)] (started 1)) \<and>
   timerState (run [Poll (poll_at True 4000), Poll (poll_at True 4400)] (started 1)) \<noteq> Counting"
proof -
  have r: "relay (run [Poll (poll_at True 4000)] (started 1))" by code_simp
  have a: "timerState (run [Poll (poll_at True 4000), Poll (poll_at True 4400)] (started 1)) = Aborted"
    by code_simp
  show ?thesis
    using relay_iff_counting [OF setup_started, of "[Poll (poll_at True 4000)]" 1]
      relay_iff_counting [OF setup_started, of "[Poll (poll_at True 4000), Poll (poll_at True 4400)]" 1]
      r a setup_started [of 1]
    by simp
qed

section \<open>The range of the duration\<close>




section \<open>The progress bar\<close>

text \<open>
  C10. In every execution, each \<open>updateDisplay\<close> that ran with \<open>countdownStarted\<close> true
  gave \<open>map\<close> an \<open>in_max\<close> (\<open>initialTotalSeconds\<close>) of at least 1, so \<open>map\<close> did not
  divide by zero. A countdown can start from 0:00 (\<open>initialTotalSeconds = 0\<close>), but then
  the time left is 0:00 as well, so the next tick calls \<open>countdownFinished\<close> and not
  \<open>updateDisplay\<close>.
\<close>

theorem progress_never_divides_by_zero:
  assumes "setup_sketch ok ee = Some s0"
  shows "(\<forall>m sec mx p. Render True m sec mx p \<in> set (out (run evs s0)) \<longrightarrow> 1 \<le>s mx \<and> p \<noteq> None) \<and>
         (countdownStarted (run evs s0) \<and> initialTotalSeconds (run evs s0) = 0 \<longrightarrow>
            minutes (run evs s0) = 0 \<and> seconds (run evs s0) = 0)"
proof -
  have inv: "invariant (run evs s0)" using assms by (rule invariant_reachable)
  then have "\<forall>e\<in>set (out (run evs s0)). render_ok e"
    by (simp add: invariant_def list_all_iff)
  then have A: "\<forall>m sec mx p. Render True m sec mx p \<in> set (out (run evs s0)) \<longrightarrow> 1 \<le>s mx \<and> p \<noteq> None"
    by (force simp: render_ok_def)
  have B: "minutes (run evs s0) = 0 \<and> seconds (run evs s0) = 0"
    if "countdownStarted (run evs s0)" "initialTotalSeconds (run evs s0) = 0"
  proof -
    from inv that have "sint (minutes (run evs s0)) = 0 \<and> sint (seconds (run evs s0)) = 0"
      by (simp add: invariant_def total_def)
    then show ?thesis by (metis signed_word_eqI sint_0)
  qed
  from A B show ?thesis by blast
qed

text \<open>With 0:01 stored: a first countdown draws one Counting screen (\<open>in_max = 1\<close>) and
  runs out; after the acknowledgement a second countdown starts from 0:00 and runs out
  without drawing any Counting screen.\<close>

theorem progress_never_divides_by_zero_witness:
  "setup_sketch True (ee_of 1) = Some (started 1) \<and>
   out (run [Poll (poll_at True 4000), Poll (poll_at False 5000), Poll (poll_at False 6000),
        Poll (poll_at True 11000), Poll (poll_at True 12000), Poll (poll_at False 13000)] (started 1))
     = [Splash, StartupSound, Render True 0 0 1 (Some 0), ScreenFinished, Alarm,
        Render False 0 0 1800 (Some 0), ScreenFinished, Alarm] \<and>
   initialTotalSeconds (run [Poll (poll_at True 4000), Poll (poll_at False 5000),
        Poll (poll_at False 6000), Poll (poll_at True 11000), Poll (poll_at True 12000)] (started 1)) = 0 \<and>
   timerState (run [Poll (poll_at True 4000), Poll (poll_at False 5000),
        Poll (poll_at False 6000), Poll (poll_at True 11000), Poll (poll_at True 12000)] (started 1))
     = Counting \<and>
   minutes (run [Poll (poll_at True 4000), Poll (poll_at False 5000),
        Poll (poll_at False 6000), Poll (poll_at True 11000), Poll (poll_at True 12000)] (started 1)) = 0 \<and>
   seconds (run [Poll (poll_at True 4000), Poll (poll_at False 5000),
        Poll (poll_at False 6000), Poll (poll_at True 11000), Poll (poll_at True 12000)] (started 1)) = 0 \<and>
   Render True 0 0 1 (Some 0) \<in> set (out (run [Poll (poll_at True 4000), Poll (poll_at False 5000),
        Poll (poll_at False 6000), Poll (poll_at True 11000), Poll (poll_at True 12000),
        Poll (poll_at False 13000)] (started 1))) \<and>
   (1::cint) \<le>s 1"
proof -
  let ?E = "[Poll (poll_at True 4000), Poll (poll_at False 5000), Poll (poll_at False 6000),
        Poll (poll_at True 11000), Poll (poll_at True 12000)]"
  have o: "out (run (?E @ [Poll (poll_at False 13000)]) (started 1))
     = [Splash, StartupSound, Render True 0 0 1 (Some 0), ScreenFinished, Alarm,
        Render False 0 0 1800 (Some 0), ScreenFinished, Alarm]" by code_simp
  have i: "initialTotalSeconds (run ?E (started 1)) = 0" by code_simp
  have c: "timerState (run ?E (started 1)) = Counting" by code_simp
  have cs: "countdownStarted (run ?E (started 1))" by code_simp
  show ?thesis
    using progress_never_divides_by_zero [OF setup_started, of "?E @ [Poll (poll_at False 13000)]" 1]
      progress_never_divides_by_zero [OF setup_started, of ?E 1]
      o i c cs setup_started [of 1]
    by simp
qed

section \<open>The end of the countdown\<close>

text \<open>
  C5, as the claim states it, fails: with 0:01 stored and the countdown started at 4000 ms,
  the poll at 5000 ms finds one second left and 1000 ms elapsed; after it the timer is still
  Counting at 0:00, the relay is still on and no alarm was played.
\<close>

theorem still_counting_at_zero:
  "timerState (run [Poll (poll_at True 4000)] (started 1)) = Counting \<and>
   minutes (run [Poll (poll_at True 4000)] (started 1)) = 0 \<and>
   seconds (run [Poll (poll_at True 4000)] (started 1)) = 1 \<and>
   lastCountdownUpdate (run [Poll (poll_at True 4000)] (started 1)) = 4000 \<and>
   timerState (run [Poll (poll_at True 4000), Poll (poll_at False 5000)] (started 1)) = Counting \<and>
   relay (run [Poll (poll_at True 4000), Poll (poll_at False 5000)] (started 1)) \<and>
   Alarm \<notin> set (out (run [Poll (poll_at True 4000), Poll (poll_at False 5000)] (started 1)))"
  by code_simp

text \<open>
  C5, amended. While Counting with 0:01 left, a poll that finds at least 1000 ms elapsed
  since the last tick only decrements to 0:00 and draws the screen; the timer stays
  Counting and the relay keeps its level. The next poll that finds at least 1000 ms
  elapsed, now with 0:00 left, enters \<open>countdownFinished\<close>: the relay is switched off
  and the alarm played. (Both polls without a button press.)
\<close>

theorem finish_one_tick_after_zero:
  assumes "timerState s = Counting" "minutes s = 0" "seconds s = 1"
    and "\<not> sw_low i" "1000 \<le> t_chk i - lastCountdownUpdate s"
    and "\<not> sw_low j" "1000 \<le> t_chk j - t_tick i"
  shows "timerState (step (Poll i) s) = Counting \<and>
         relay (step (Poll i) s) = relay s \<and>
         minutes (step (Poll i) s) = 0 \<and> seconds (step (Poll i) s) = 0 \<and>
         out (step (Poll i) s) =
           out s @ [Render True 0 0 (initialTotalSeconds s)
                      (map_int 0 0 (initialTotalSeconds s) 0 SCREEN_WIDTH)] \<and>
         timerState (step (Poll j) (step (Poll i) s)) = Finished \<and>
         \<not> relay (step (Poll j) (step (Poll i) s)) \<and>
         out (step (Poll j) (step (Poll i) s)) = out (step (Poll i) s) @ [ScreenFinished, Alarm]"
proof -
  from assms(1) have c: "pc s = InLoop" "countdownStarted s" by (simp_all add: timerState_simps)
  let ?a = "s\<lparr>rotating := True, lastReportedPos := encoderPos s, lastCountdownUpdate := t_tick i,
               seconds := 0, out := out s @ [Render True 0 0 (initialTotalSeconds s)
                      (map_int 0 0 (initialTotalSeconds s) 0 SCREEN_WIDTH)]\<rparr>"
  have a: "step (Poll i) s = ?a"
    using assms c
    by (simp add: step_def loop_released encoder_block_counting countdown_block_def
        updateDisplay_def Let_def word_sless_alt)
  have b: "step (Poll j) ?a = countdownFinished (?a\<lparr>lastCountdownUpdate := t_tick j\<rparr>)"
    using assms c
    by (simp add: step_def loop_released encoder_block_counting countdown_block_def Let_def
        word_sless_alt countdownFinished_def)
  show ?thesis
    unfolding a b using assms c by (simp add: timerState_simps countdownFinished_def)
qed

theorem finish_one_tick_after_zero_witness:
  "timerState (run [Poll (poll_at True 4000)] (started 1)) = Counting \<and>
   seconds (run [Poll (poll_at True 4000)] (started 1)) = 1 \<and>
   timerState (step (Poll (poll_at False 5000)) (run [Poll (poll_at True 4000)] (started 1)))
     = Counting \<and>
   relay (step (Poll (poll_at False 5000)) (run [Poll (poll_at True 4000)] (started 1))) \<and>
   timerState (step (Poll (poll_at False 6000))
      (step (Poll (poll_at False 5000)) (run [Poll (poll_at True 4000)] (started 1)))) = Finished \<and>
   \<not> relay (step (Poll (poll_at False 6000))
      (step (Poll (poll_at False 5000)) (run [Poll (poll_at True 4000)] (started 1))))"
proof -
  let ?s = "run [Poll (poll_at True 4000)] (started 1)"
  have h1: "timerState ?s = Counting" by code_simp
  have h2: "minutes ?s = 0" by code_simp
  have h3: "seconds ?s = 1" by code_simp
  have h4: "\<not> sw_low (poll_at False 5000)" by (simp add: poll_at_def)
  have h5: "1000 \<le> t_chk (poll_at False 5000) - lastCountdownUpdate ?s" by code_simp
  have h6: "\<not> sw_low (poll_at False 6000)" by (simp add: poll_at_def)
  have h7: "1000 \<le> t_chk (poll_at False 6000) - t_tick (poll_at False 5000)" by code_simp
  have r: "relay ?s" by code_simp
  show ?thesis
    using finish_one_tick_after_zero [OF h1 h2 h3 h4 h5 h6 h7] h1 h3 r by simp
qed

section \<open>Aborting a countdown\<close>

text \<open>
  C4, as the claim states it, fails: with 0:12 stored, the countdown is aborted at 0:10 and
  the abort acknowledged. The timer is Configuring at 0:10, the value that remained, not at
  the 0:12 it had before the countdown.
\<close>

theorem abort_resumes_at_remaining:
  "timerState (run [Poll (poll_at True 4000), Poll (poll_at False 5000), Poll (poll_at False 6000)]
      (started 12)) = Counting \<and>
   total (run [Poll (poll_at True 4000), Poll (poll_at False 5000), Poll (poll_at False 6000)]
      (started 12)) = 10 \<and>
   timerState (run [Poll (poll_at True 4000), Poll (poll_at False 5000), Poll (poll_at False 6000),
      Poll (poll_at True 6500)] (started 12)) = Aborted \<and>
   timerState (run [Poll (poll_at True 4000), Poll (poll_at False 5000), Poll (poll_at False 6000),
      Poll (poll_at True 6500), Poll (poll_at True 8000)] (started 12)) = Configuring \<and>
   total (started 12) = 12 \<and>
   total (run [Poll (poll_at True 4000), Poll (poll_at False 5000), Poll (poll_at False 6000),
      Poll (poll_at True 6500), Poll (poll_at True 8000)] (started 12)) = 10 \<and>
   total (run [Poll (poll_at True 4000), Poll (poll_at False 5000), Poll (poll_at False 6000),
      Poll (poll_at True 6500), Poll (poll_at True 8000)] (started 12)) \<noteq> total (started 12)"
  by code_simp

text \<open>
  C4, amended. While Counting, an accepted press makes the timer Aborted with the relay off
  at once; it stays so while the interrupt fires and the button is found released; the
  next accepted press makes it Configuring, relay off, with \<open>minutes\<close> and \<open>seconds\<close>
  as they were when the countdown was aborted (the remaining value is kept, the duration
  from before the countdown is not restored).
\<close>

theorem abort_keeps_remaining:
  assumes "timerState s = Counting"
    and "sw_low i" "DEBOUNCE_DELAY < t_btn i - lastButtonPress s"
    and "list_all released w"
    and "sw_low j" "DEBOUNCE_DELAY < t_btn j - t_acc i"
  shows "timerState (step (Poll i) s) = Aborted \<and> \<not> relay (step (Poll i) s) \<and>
         timerState (run w (step (Poll i) s)) = Aborted \<and> \<not> relay (run w (step (Poll i) s)) \<and>
         timerState (step (Poll j) (run w (step (Poll i) s))) = Configuring \<and>
         \<not> relay (step (Poll j) (run w (step (Poll i) s))) \<and>
         minutes (step (Poll j) (run w (step (Poll i) s))) = minutes s \<and>
         seconds (step (Poll j) (run w (step (Poll i) s))) = seconds s \<and>
         initialTotalSeconds (step (Poll j) (run w (step (Poll i) s))) = initialTotalSeconds s"
proof -
  from assms(1) have c: "pc s = InLoop" "countdownStarted s" by (simp_all add: timerState_simps)
  let ?a = "step (Poll i) s"
  have a: "?a = abortCountdown
      (s\<lparr>rotating := True, lastReportedPos := encoderPos s, lastButtonPress := t_acc i\<rparr>)"
    using assms(2,3) c
    by (simp add: step_def loop_accepted encoder_block_counting Let_def)
  have a_fields: "pc ?a = WaitAborted" "\<not> relay ?a" "countdownStarted ?a"
    "minutes ?a = minutes s" "seconds ?a = seconds s" "lastButtonPress ?a = t_acc i"
    "initialTotalSeconds ?a = initialTotalSeconds s"
    using c by (simp_all add: a abortCountdown_def)
  obtain p where b: "run w ?a = ?a\<lparr>encoderPos := p\<rparr>"
    using wait_run_released [of ?a w] a_fields assms(4) by auto
  let ?b = "?a\<lparr>encoderPos := p\<rparr>"
  have cc: "step (Poll j) ?b = (resetTimer (?b\<lparr>lastButtonPress := t_acc j\<rparr>))\<lparr>pc := InLoop\<rparr>"
    using assms(5,6) a_fields
    by (simp add: step_def wait_poll_def isButtonPressed_def countdown_block_def resetTimer_def
        updateDisplay_def Let_def)
  show ?thesis
    unfolding b cc using a_fields
    by (simp add: timerState_simps resetTimer_def updateDisplay_def Let_def)
qed

theorem abort_keeps_remaining_witness:
  "total (run [Poll (poll_at True 4000), Poll (poll_at False 5000), Poll (poll_at False 6000)]
      (started 12)) = 10 \<and>
   timerState (step (Poll (poll_at True 6500))
     (run [Poll (poll_at True 4000), Poll (poll_at False 5000), Poll (poll_at False 6000)]
      (started 12))) = Aborted \<and>
   timerState (step (Poll (poll_at True 8000)) (run [Isr True True, Poll (poll_at False 7800)]
     (step (Poll (poll_at True 6500))
     (run [Poll (poll_at True 4000), Poll (poll_at False 5000), Poll (poll_at False 6000)]
      (started 12))))) = Configuring \<and>
   minutes (step (Poll (poll_at True 8000)) (run [Isr True True, Poll (poll_at False 7800)]
     (step (Poll (poll_at True 6500))
     (run [Poll (poll_at True 4000), Poll (poll_at False 5000), Poll (poll_at False 6000)]
      (started 12))))) = 0 \<and>
   seconds (step (Poll (poll_at True 8000)) (run [Isr True True, Poll (poll_at False 7800)]
     (step (Poll (poll_at True 6500))
     (run [Poll (poll_at True 4000), Poll (poll_at False 5000), Poll (poll_at False 6000)]
      (started 12))))) = 10"
proof -
  let ?s = "run [Poll (poll_at True 4000), Poll (poll_at False 5000), Poll (poll_at False 6000)]
      (started 12)"
  have h1: "timerState ?s = Counting" by code_simp
  have h2: "sw_low (poll_at True 6500)" by (simp add: poll_at_def)
  have h3: "DEBOUNCE_DELAY < t_btn (poll_at True 6500) - lastButtonPress ?s" by code_simp
  have h4: "list_all released [Isr True True, Poll (poll_at False 7800)]"
    by (simp add: released_def poll_at_def)
  have h5: "sw_low (poll_at True 8000)" by (simp add: poll_at_def)
  have h6: "DEBOUNCE_DELAY < t_btn (poll_at True 8000) - t_acc (poll_at True 6500)" by code_simp
  have m: "minutes ?s = 0" "seconds ?s = 10" "total ?s = 10" by code_simp+
  show ?thesis
    using abort_keeps_remaining [OF h1 h2 h3 h4 h5 h6] m by simp
qed

section \<open>The configuration store\<close>

text \<open>
  C6. When \<open>saveLastConfiguration\<close> runs with \<open>minutes * 60 + seconds = x\<close> and \<open>x\<close> in
  \<open>[1, 1800]\<close>, a later \<open>loadLastConfiguration\<close> on that EEPROM reads \<open>x\<close> and sets
  \<open>minutes = x / 60\<close>, \<open>seconds = x % 60\<close>, which are the \<open>minutes\<close> and \<open>seconds\<close>
  that were saved when these were a proper split. When the stored value is outside
  \<open>[1, 1800]\<close>, it sets 5:00, that is 300 seconds.
\<close>

theorem config_roundtrip:
  "(1 \<le> sint x \<and> sint x \<le> 1800 \<and> minutes s * 60 + seconds s = x \<and>
    eeprom t = eeprom (saveLastConfiguration s) \<longrightarrow>
      EEPROM_get (eeprom t) EEPROM_ADDRESS = x \<and>
      minutes (loadLastConfiguration t) = c_div x 60 \<and>
      seconds (loadLastConfiguration t) = c_mod x 60 \<and>
      minutes (loadLastConfiguration t) * 60 + seconds (loadLastConfiguration t) = x \<and>
      total (loadLastConfiguration t) = sint x) \<and>
   (1 \<le> total s \<and> total s \<le> 1800 \<and> 0 \<le> sint (minutes s) \<and>
    0 \<le> sint (seconds s) \<and> sint (seconds s) \<le> 59 \<and>
    eeprom t = eeprom (saveLastConfiguration s) \<longrightarrow>
      minutes (loadLastConfiguration t) = minutes s \<and>
      seconds (loadLastConfiguration t) = seconds s) \<and>
   (\<not> (1 \<le> sint (EEPROM_get (eeprom t) EEPROM_ADDRESS) \<and>
        sint (EEPROM_get (eeprom t) EEPROM_ADDRESS) \<le> 1800) \<longrightarrow>
      minutes (loadLastConfiguration t) = 5 \<and> seconds (loadLastConfiguration t) = 0 \<and>
      total (loadLastConfiguration t) = 300)"
proof -
  have A: "EEPROM_get (eeprom t) EEPROM_ADDRESS = x \<and>
      minutes (loadLastConfiguration t) = c_div x 60 \<and>
      seconds (loadLastConfiguration t) = c_mod x 60 \<and>
      minutes (loadLastConfiguration t) * 60 + seconds (loadLastConfiguration t) = x \<and>
      total (loadLastConfiguration t) = sint x"
    if h: "1 \<le> sint x" "sint x \<le> 1800" "minutes s * 60 + seconds s = x"
      "eeprom t = eeprom (saveLastConfiguration s)" for x
  proof -
    have g: "EEPROM_get (eeprom t) EEPROM_ADDRESS = x"
      using h by (simp add: saveLastConfiguration_def Let_def EEPROM_get_put)
    have l: "loadLastConfiguration t = t\<lparr>minutes := c_div x 60, seconds := c_mod x 60\<rparr>"
      using h(1,2) by (simp add: loadLastConfiguration_def g MIN_TIME_def MAX_TIME_def word_sle_eq)
    show ?thesis
      using h(1,2) by (simp add: g l join_split total_def split_total)
  qed
  have B: "minutes (loadLastConfiguration t) = 5 \<and> seconds (loadLastConfiguration t) = 0 \<and>
      total (loadLastConfiguration t) = 300"
    if "\<not> (1 \<le> sint (EEPROM_get (eeprom t) EEPROM_ADDRESS) \<and>
        sint (EEPROM_get (eeprom t) EEPROM_ADDRESS) \<le> 1800)"
    using that
    by (auto simp: loadLastConfiguration_def Let_def MIN_TIME_def MAX_TIME_def word_sle_eq total_def)
  have C: "minutes (loadLastConfiguration t) = minutes s \<and>
      seconds (loadLastConfiguration t) = seconds s"
    if h: "1 \<le> total s" "total s \<le> 1800" "0 \<le> sint (minutes s)" "0 \<le> sint (seconds s)"
      "sint (seconds s) \<le> 59" "eeprom t = eeprom (saveLastConfiguration s)"
  proof -
    have m: "sint (minutes s) \<le> 30" using h by (simp add: total_def)
    have x: "sint (minutes s * 60 + seconds s) = total s"
      unfolding total_def using h m by (intro total_word) simp_all
    have "minutes (loadLastConfiguration t) = c_div (minutes s * 60 + seconds s) 60 \<and>
        seconds (loadLastConfiguration t) = c_mod (minutes s * 60 + seconds s) 60"
      using A [of "minutes s * 60 + seconds s"] h x by simp
    moreover have "c_div (minutes s * 60 + seconds s) 60 = minutes s"
      "c_mod (minutes s * 60 + seconds s) 60 = seconds s"
      using h by (simp_all add: split_join total_def)
    ultimately show ?thesis by simp
  qed
  from A B C show ?thesis by blast
qed

theorem config_roundtrip_witness:
  "minutes (loadLastConfiguration (power_on (eeprom (saveLastConfiguration
      ((started 1)\<lparr>minutes := 2, seconds := 5\<rparr>))))) = 2 \<and>
   seconds (loadLastConfiguration (power_on (eeprom (saveLastConfiguration
      ((started 1)\<lparr>minutes := 2, seconds := 5\<rparr>))))) = 5 \<and>
   EEPROM_get (eeprom (power_on (ee_of 2000))) EEPROM_ADDRESS = 2000 \<and>
   minutes (loadLastConfiguration (power_on (ee_of 2000))) = 5 \<and>
   seconds (loadLastConfiguration (power_on (ee_of 2000))) = 0"
proof -
  let ?s = "(started 1)\<lparr>minutes := 2, seconds := 5\<rparr>"
  let ?t = "power_on (eeprom (saveLastConfiguration ?s))"
  have a: "1 \<le> sint (125 :: cint) \<and> sint (125 :: cint) \<le> 1800 \<and>
     minutes ?s * 60 + seconds ?s = 125 \<and> eeprom ?t = eeprom (saveLastConfiguration ?s)"
    by (simp add: power_on_def)
  have d: "c_div (125 :: cint) 60 = 2" "c_mod (125 :: cint) 60 = 5" by code_simp+
  have g: "EEPROM_get (eeprom (power_on (ee_of 2000))) EEPROM_ADDRESS = 2000" by code_simp
  have b: "\<not> (1 \<le> sint (EEPROM_get (eeprom (power_on (ee_of 2000))) EEPROM_ADDRESS) \<and>
        sint (EEPROM_get (eeprom (power_on (ee_of 2000))) EEPROM_ADDRESS) \<le> 1800)"
    unfolding g by simp
  show ?thesis
    using config_roundtrip [of 125 ?s ?t] config_roundtrip [of 0 ?s "power_on (ee_of 2000)"] a b d g
    by simp
qed

section \<open>The debounced button\<close>

text \<open>
  C8, as the claim states it, fails: a button held low through polls at 3000, 3150 and
  3301 ms (one physical press) is accepted twice, since nothing remembers that it was not
  released in between.
\<close>

theorem held_press_accepted_twice:
  "list_all sw_low [poll_at True 3000, poll_at True 3150, poll_at True 3301] \<and>
   poll_all [poll_at True 3000, poll_at True 3150, poll_at True 3301] (started 1) = [True, False, True]"
  by code_simp

text \<open>
  C8, amended. \<open>isButtonPressed\<close> returns true exactly when the pin reads low and more than
  \<open>DEBOUNCE_DELAY\<close> ms (difference modulo \<open>2^32\<close>) passed since \<open>lastButtonPress\<close>;
  then it sets \<open>lastButtonPress\<close> to the current time and changes nothing else, otherwise
  it changes nothing. So a press held longer than \<open>DEBOUNCE_DELAY\<close> is accepted again.
\<close>

theorem debounce_contract:
  "fst (isButtonPressed i s) = (sw_low i \<and> DEBOUNCE_DELAY < t_btn i - lastButtonPress s) \<and>
   snd (isButtonPressed i s) =
     (if fst (isButtonPressed i s) then s\<lparr>lastButtonPress := t_acc i\<rparr> else s)"
  by (simp add: isButtonPressed_def)

section \<open>Adjusting the duration with the encoder\<close>

text \<open>
  C3. Take any Configuring state and any series of interrupts and polls in which the
  button is found released. The timer stays Configuring, and \<open>minutes\<close> and \<open>seconds\<close>
  are either still the ones it started with (nothing was adjusted) or make a duration
  within \<open>[1, 1800]\<close>. Each poll that then finds the position changed, whatever the
  difference \<open>encoderPos - lastReportedPos\<close>, computes
  \<open>current_total + signed_delta * increment\<close> (16-bit \<open>int\<close> arithmetic), clamps it to
  \<open>[MIN_TIME, MAX_TIME]\<close>, splits it into \<open>minutes\<close> and \<open>seconds\<close> and writes it to the
  EEPROM; the new duration is within \<open>[1, 1800]\<close>.
\<close>

theorem encoder_adjust_clamped:
  assumes "timerState s = Configuring" "list_all released evs"
  shows "timerState (run evs s) = Configuring \<and>
    (minutes (run evs s) = minutes s \<and> seconds (run evs s) = seconds s \<or>
     1 \<le> total (run evs s) \<and> total (run evs s) \<le> 1800) \<and>
    (encoderPos (run evs s) \<noteq> lastReportedPos (run evs s) \<and> \<not> sw_low i \<longrightarrow>
      (let c = run evs s;
           T = spec_adjust (minutes c * 60 + seconds c) (encoderPos c - lastReportedPos c)
                 (if t_enc i - lastEncoderChange c < FAST_THRESHOLD then 10 else 1);
           c' = step (Poll i) c
       in timerState c' = Configuring \<and>
          minutes c' * 60 + seconds c' = T \<and>
          minutes c' = c_div T 60 \<and> seconds c' = c_mod T 60 \<and>
          EEPROM_get (eeprom c') EEPROM_ADDRESS = T \<and>
          total c' = sint T \<and> 1 \<le> total c' \<and> total c' \<le> 1800))"
proof -
  let ?c = "run evs s"
  have A: "timerState ?c = Configuring \<and>
    (minutes ?c = minutes s \<and> seconds ?c = seconds s \<or> 1 \<le> total ?c \<and> total ?c \<le> 1800)"
    using assms by (rule configuring_released_run)
  then have c: "pc ?c = InLoop" "\<not> countdownStarted ?c" by (simp_all add: timerState_simps)
  let ?r = "?c\<lparr>rotating := True\<rparr>"
  let ?T = "spec_adjust (minutes ?c * 60 + seconds ?c) (encoderPos ?c - lastReportedPos ?c)
                 (if t_enc i - lastEncoderChange ?c < FAST_THRESHOLD then 10 else 1)"
  have B: "timerState (step (Poll i) ?c) = Configuring \<and>
          minutes (step (Poll i) ?c) * 60 + seconds (step (Poll i) ?c) = ?T \<and>
          minutes (step (Poll i) ?c) = c_div ?T 60 \<and> seconds (step (Poll i) ?c) = c_mod ?T 60 \<and>
          EEPROM_get (eeprom (step (Poll i) ?c)) EEPROM_ADDRESS = ?T \<and>
          total (step (Poll i) ?c) = sint ?T \<and>
          1 \<le> total (step (Poll i) ?c) \<and> total (step (Poll i) ?c) \<le> 1800"
    if h: "encoderPos ?c \<noteq> lastReportedPos ?c" "\<not> sw_low i"
  proof -
    have st: "step (Poll i) ?c = encoder_block i ?r"
      using c h by (simp add: step_def loop_configuring_released)
    have p: "\<not> countdownStarted ?r" "lastReportedPos ?r \<noteq> encoderPos ?r"
      using c h by simp_all
    have f: "minutes (encoder_block i ?r) = c_div ?T 60"
      "seconds (encoder_block i ?r) = c_mod ?T 60"
      "minutes (encoder_block i ?r) * 60 + seconds (encoder_block i ?r) = ?T"
      "EEPROM_get (eeprom (encoder_block i ?r)) EEPROM_ADDRESS = ?T"
      "total (encoder_block i ?r) = sint ?T"
      using adjust_fields [OF p, of i] by simp_all
    show ?thesis
      unfolding st using f c spec_adjust_range [of "minutes ?c * 60 + seconds ?c"
          "encoderPos ?c - lastReportedPos ?c"
          "if t_enc i - lastEncoderChange ?c < FAST_THRESHOLD then 10 else 1"]
      by (simp add: timerState_simps encoder_block_frame)
  qed
  from A B show ?thesis unfolding Let_def by blast
qed

text \<open>Starting from 29:55, a slow step up gives 29:56 and a fast one (40 ms later) is
  clamped to 30:00, which is also what the EEPROM then holds.\<close>

theorem encoder_adjust_clamped_witness:
  "timerState (run [Isr True True, Poll (poll_at False 5000), Isr True True] (started 1795))
     = Configuring \<and>
   total (run [Isr True True, Poll (poll_at False 5000), Isr True True] (started 1795)) = 1796 \<and>
   total (step (Poll (poll_at False 5040))
     (run [Isr True True, Poll (poll_at False 5000), Isr True True] (started 1795))) = 1800 \<and>
   minutes (step (Poll (poll_at False 5040))
     (run [Isr True True, Poll (poll_at False 5000), Isr True True] (started 1795))) = 30 \<and>
   seconds (step (Poll (poll_at False 5040))
     (run [Isr True True, Poll (poll_at False 5000), Isr True True] (started 1795))) = 0 \<and>
   EEPROM_get (eeprom (step (Poll (poll_at False 5040))
     (run [Isr True True, Poll (poll_at False 5000), Isr True True] (started 1795))))
     EEPROM_ADDRESS = 1800"
proof -
  let ?evs = "[Isr True True, Poll (poll_at False 5000), Isr True True]"
  let ?c = "run ?evs (started 1795)"
  have h1: "timerState (started 1795) = Configuring" by code_simp
  have h2: "list_all released ?evs" by (simp add: released_def poll_at_def)
  have h3: "encoderPos ?c \<noteq> lastReportedPos ?c \<and> \<not> sw_low (poll_at False 5040)" by code_simp
  have T: "spec_adjust (minutes ?c * 60 + seconds ?c) (encoderPos ?c - lastReportedPos ?c)
                 (if t_enc (poll_at False 5040) - lastEncoderChange ?c < FAST_THRESHOLD
                  then 10 else 1) = 1800" by code_simp
  have t: "total ?c = 1796" by code_simp
  have d: "c_div (1800 :: cint) 60 = 30" "c_mod (1800 :: cint) 60 = 0" by code_simp+
  show ?thesis
    using encoder_adjust_clamped [OF h1 h2, of "poll_at False 5040"] h3 t
    unfolding Let_def T d by simp
qed

text \<open>The sum is formed in 16-bit \<open>int\<close> arithmetic, so it is the clamp and not the sum
  that bounds the result: 3277 fast steps up from 0:05 wrap to a negative sum, which is
  clamped to 0:01.\<close>

lemma spec_adjust_wraps: "spec_adjust 5 3277 10 = 1"
  by code_simp

text \<open>
  C7. In a reachable Configuring state, a poll that finds the position changed by \<open>d\<close>
  (here \<open>|d| \<le> 3000\<close>, so that the 16-bit sum does not wrap) and the button released sets
  the duration to \<open>total + d * 10\<close> when less than \<open>FAST_THRESHOLD\<close> ms passed since
  \<open>lastEncoderChange\<close>, and to \<open>total + d * 1\<close> otherwise, clamped to \<open>[1, 1800]\<close>;
  \<open>d\<close> is signed, so both directions are treated alike. \<open>lastEncoderChange\<close> becomes
  the time of this poll.
\<close>

theorem rotation_speed_increment:
  assumes "setup_sketch ok ee = Some s0"
    and "timerState (run evs s0) = Configuring"
    and "encoderPos (run evs s0) \<noteq> lastReportedPos (run evs s0)"
    and "\<not> sw_low i"
    and "- 3000 \<le> sint (encoderPos (run evs s0) - lastReportedPos (run evs s0))"
    and "sint (encoderPos (run evs s0) - lastReportedPos (run evs s0)) \<le> 3000"
  shows "total (step (Poll i) (run evs s0)) =
           max 1 (min 1800 (total (run evs s0) +
             sint (encoderPos (run evs s0) - lastReportedPos (run evs s0)) *
               (if t_enc i - lastEncoderChange (run evs s0) < FAST_THRESHOLD then 10 else 1))) \<and>
         lastEncoderChange (step (Poll i) (run evs s0)) = t_enc i"
proof -
  let ?c = "run evs s0"
  let ?r = "?c\<lparr>rotating := True\<rparr>"
  let ?k = "if t_enc i - lastEncoderChange ?c < FAST_THRESHOLD then 10 else 1 :: cint"
  have inv: "invariant ?c" using assms(1) by (rule invariant_reachable)
  from assms(2) have c: "pc ?c = InLoop" "\<not> countdownStarted ?c" by (simp_all add: timerState_simps)
  have st: "step (Poll i) ?c = encoder_block i ?r"
    using c assms(4) by (simp add: step_def loop_configuring_released)
  have p: "\<not> countdownStarted ?r" "lastReportedPos ?r \<noteq> encoderPos ?r"
    using c assms(3) by simp_all
  have tot: "sint (minutes ?c * 60 + seconds ?c) = total ?c" using inv by (rule total_eq)
  have rng: "0 \<le> total ?c" "total ?c \<le> 1800" using inv by (simp_all add: invariant_def total_def)
  have sum: "sint (minutes ?c * 60 + seconds ?c + (encoderPos ?c - lastReportedPos ?c) * ?k)
      = total ?c + sint (encoderPos ?c - lastReportedPos ?c) * sint ?k"
    using sint_adjust_sum [of "minutes ?c * 60 + seconds ?c" "encoderPos ?c - lastReportedPos ?c" ?k]
      rng assms(5,6) by (simp add: tot)
  have "total (encoder_block i ?r) =
      sint (spec_adjust (minutes ?c * 60 + seconds ?c) (encoderPos ?c - lastReportedPos ?c) ?k)"
    using adjust_fields(5) [OF p, of i] by simp
  also have "\<dots> = max 1 (min 1800 (total ?c + sint (encoderPos ?c - lastReportedPos ?c) * sint ?k))"
    by (simp only: spec_adjust_def sint_constrain sum)
  finally have A: "total (step (Poll i) ?c) =
      max 1 (min 1800 (total ?c + sint (encoderPos ?c - lastReportedPos ?c) * sint ?k))"
    by (simp only: st)
  have B: "lastEncoderChange (step (Poll i) ?c) = t_enc i"
    using adjust_fields(8) [OF p, of i] by (simp add: st)
  have k: "sint ?k = (if t_enc i - lastEncoderChange ?c < FAST_THRESHOLD then 10 else 1)" by simp
  show ?thesis using A B unfolding k by simp
qed

text \<open>From 0:05: a slow step up gives 0:06, a fast step up (40 ms later) 0:16, a fast step
  down (40 ms later) 0:06, and a step down 60 ms later, which is not fast, 0:05.\<close>

theorem rotation_speed_increment_witness:
  "total (started 5) = 5 \<and>
   total (step (Poll (poll_at False 5000)) (run [Isr True True] (started 5))) = 6 \<and>
   total (step (Poll (poll_at False 5040))
     (run [Isr True True, Poll (poll_at False 5000), Isr True True] (started 5))) = 16 \<and>
   total (step (Poll (poll_at False 5080))
     (run [Isr True True, Poll (poll_at False 5000), Isr True True, Poll (poll_at False 5040),
           Isr True False] (started 5))) = 6 \<and>
   total (step (Poll (poll_at False 5140))
     (run [Isr True True, Poll (poll_at False 5000), Isr True True, Poll (poll_at False 5040),
           Isr True False, Poll (poll_at False 5080), Isr True False] (started 5))) = 5"
proof -
  let ?e1 = "[Isr True True]"
  let ?e2 = "[Isr True True, Poll (poll_at False 5000), Isr True True]"
  let ?e3 = "[Isr True True, Poll (poll_at False 5000), Isr True True, Poll (poll_at False 5040),
           Isr True False]"
  let ?e4 = "[Isr True True, Poll (poll_at False 5000), Isr True True, Poll (poll_at False 5040),
           Isr True False, Poll (poll_at False 5080), Isr True False]"
  have n: "\<not> sw_low (poll_at False 5000)" "\<not> sw_low (poll_at False 5040)"
    "\<not> sw_low (poll_at False 5080)" "\<not> sw_low (poll_at False 5140)" by (simp_all add: poll_at_def)
  have c1: "timerState (run ?e1 (started 5)) = Configuring"
    "encoderPos (run ?e1 (started 5)) \<noteq> lastReportedPos (run ?e1 (started 5))"
    "- 3000 \<le> sint (encoderPos (run ?e1 (started 5)) - lastReportedPos (run ?e1 (started 5)))"
    "sint (encoderPos (run ?e1 (started 5)) - lastReportedPos (run ?e1 (started 5))) \<le> 3000"
    by code_simp+
  have c2: "timerState (run ?e2 (started 5)) = Configuring"
    "encoderPos (run ?e2 (started 5)) \<noteq> lastReportedPos (run ?e2 (started 5))"
    "- 3000 \<le> sint (encoderPos (run ?e2 (started 5)) - lastReportedPos (run ?e2 (started 5)))"
    "sint (encoderPos (run ?e2 (started 5)) - lastReportedPos (run ?e2 (started 5))) \<le> 3000"
    by code_simp+
  have c3: "timerState (run ?e3 (started 5)) = Configuring"
    "encoderPos (run ?e3 (started 5)) \<noteq> lastReportedPos (run ?e3 (started 5))"
    "- 3000 \<le> sint (encoderPos (run ?e3 (started 5)) - lastReportedPos (run ?e3 (started 5)))"
    "sint (encoderPos (run ?e3 (started 5)) - lastReportedPos (run ?e3 (started 5))) \<le> 3000"
    by code_simp+
  have c4: "timerState (run ?e4 (started 5)) = Configuring"
    "encoderPos (run ?e4 (started 5)) \<noteq> lastReportedPos (run ?e4 (started 5))"
    "- 3000 \<le> sint (encoderPos (run ?e4 (started 5)) - lastReportedPos (run ?e4 (started 5)))"
    "sint (encoderPos (run ?e4 (started 5)) - lastReportedPos (run ?e4 (started 5))) \<le> 3000"
    by code_simp+
  have v1: "total (run ?e1 (started 5)) +
             sint (encoderPos (run ?e1 (started 5)) - lastReportedPos (run ?e1 (started 5))) *
               (if t_enc (poll_at False 5000) - lastEncoderChange (run ?e1 (started 5)) < FAST_THRESHOLD
                then 10 else 1) = 6" by code_simp
  have v2: "total (run ?e2 (started 5)) +
             sint (encoderPos (run ?e2 (started 5)) - lastReportedPos (run ?e2 (started 5))) *
               (if t_enc (poll_at False 5040) - lastEncoderChange (run ?e2 (started 5)) < FAST_THRESHOLD
                then 10 else 1) = 16" by code_simp
  have v3: "total (run ?e3 (started 5)) +
             sint (encoderPos (run ?e3 (started 5)) - lastReportedPos (run ?e3 (started 5))) *
               (if t_enc (poll_at False 5080) - lastEncoderChange (run ?e3 (started 5)) < FAST_THRESHOLD
                then 10 else 1) = 6" by code_simp
  have v4: "total (run ?e4 (started 5)) +
             sint (encoderPos (run ?e4 (started 5)) - lastReportedPos (run ?e4 (started 5))) *
               (if t_enc (poll_at False 5140) - lastEncoderChange (run ?e4 (started 5)) < FAST_THRESHOLD
                then 10 else 1) = 5" by code_simp
  have t0: "total (started 5) = 5" by code_simp
  show ?thesis
    using rotation_speed_increment [OF setup_started c1(1,2) n(1) c1(3,4)]
      rotation_speed_increment [OF setup_started c2(1,2) n(2) c2(3,4)]
      rotation_speed_increment [OF setup_started c3(1,2) n(3) c3(3,4)]
      rotation_speed_increment [OF setup_started c4(1,2) n(4) c4(3,4)]
      t0
    unfolding v1 v2 v3 v4 by simp
qed

section \<open>The encoder outside of Configuring\<close>

text \<open>
  C9. The interrupt never changes \<open>minutes\<close>, \<open>seconds\<close> or \<open>lastReportedPos\<close>; it moves
  \<open>encoderPos\<close> by one. Outside of Configuring, \<open>minutes\<close> and \<open>seconds\<close> after a poll
  do not depend on \<open>encoderPos\<close> and \<open>lastReportedPos\<close>. While Counting, a poll leaves
  \<open>encoderPos\<close> as it is and sets \<open>lastReportedPos\<close> to it. When a press is accepted in
  Aborted or Finished, the timer is Configuring again, \<open>encoderPos\<close> is set back to
  \<open>lastReportedPos\<close> (what the interrupt added during the wait is dropped) and
  \<open>minutes\<close> and \<open>seconds\<close> are unchanged.
\<close>

theorem encoder_only_while_configuring:
  "minutes (step (Isr clk dt) s) = minutes s \<and> seconds (step (Isr clk dt) s) = seconds s \<and>
   lastReportedPos (step (Isr clk dt) s) = lastReportedPos s \<and>
   encoderPos (step (Isr clk dt) s) = (if clk = dt then encoderPos s + 1 else encoderPos s - 1) \<and>
   (timerState s \<noteq> Configuring \<longrightarrow>
      minutes (step (Poll i) (s\<lparr>encoderPos := p, lastReportedPos := q\<rparr>)) = minutes (step (Poll i) s) \<and>
      seconds (step (Poll i) (s\<lparr>encoderPos := p, lastReportedPos := q\<rparr>)) = seconds (step (Poll i) s)) \<and>
   (timerState s = Counting \<longrightarrow>
      encoderPos (step (Poll i) s) = encoderPos s \<and>
      lastReportedPos (step (Poll i) s) = encoderPos s) \<and>
   ((timerState s = Aborted \<or> timerState s = Finished) \<and> fst (isButtonPressed i s) \<longrightarrow>
      timerState (step (Poll i) s) = Configuring \<and>
      encoderPos (step (Poll i) s) = lastReportedPos s \<and>
      lastReportedPos (step (Poll i) s) = lastReportedPos s \<and>
      minutes (step (Poll i) s) = minutes s \<and> seconds (step (Poll i) s) = seconds s)"
proof -
  have A: "minutes (step (Isr clk dt) s) = minutes s \<and> seconds (step (Isr clk dt) s) = seconds s \<and>
     lastReportedPos (step (Isr clk dt) s) = lastReportedPos s \<and>
     encoderPos (step (Isr clk dt) s) = (if clk = dt then encoderPos s + 1 else encoderPos s - 1)"
    by (simp add: step_def doEncoder_def)
  have B: "minutes (step (Poll i) (s\<lparr>encoderPos := p, lastReportedPos := q\<rparr>)) = minutes (step (Poll i) s) \<and>
      seconds (step (Poll i) (s\<lparr>encoderPos := p, lastReportedPos := q\<rparr>)) = seconds (step (Poll i) s)"
    if h: "timerState s \<noteq> Configuring"
  proof (cases "pc s = InLoop")
    case True
    with h have "countdownStarted s" by (simp add: timerState_simps)
    with True show ?thesis by (simp add: step_def loop_counting_encoder)
  next
    case False
    then have "step (Poll i) s = wait_poll i s"
      "step (Poll i) (s\<lparr>encoderPos := p, lastReportedPos := q\<rparr>)
         = wait_poll i (s\<lparr>encoderPos := p, lastReportedPos := q\<rparr>)"
      by (simp_all add: step_def split: control.splits)
    with False show ?thesis by (simp add: wait_poll_fields)
  qed
  have C: "encoderPos (step (Poll i) s) = encoderPos s \<and> lastReportedPos (step (Poll i) s) = encoderPos s"
    if "timerState s = Counting"
    using that by (simp add: timerState_simps step_def loop_counting_encoder)
  have D: "timerState (step (Poll i) s) = Configuring \<and>
      encoderPos (step (Poll i) s) = lastReportedPos s \<and>
      lastReportedPos (step (Poll i) s) = lastReportedPos s \<and>
      minutes (step (Poll i) s) = minutes s \<and> seconds (step (Poll i) s) = seconds s"
    if h: "timerState s = Aborted \<or> timerState s = Finished" "fst (isButtonPressed i s)"
  proof -
    from h(1) have w: "pc s \<noteq> InLoop" by (auto simp: timerState_simps)
    then have "step (Poll i) s = wait_poll i s" by (simp add: step_def split: control.splits)
    with w h(2) show ?thesis by (simp add: wait_poll_fields)
  qed
  from A B C D show ?thesis by blast
qed

text \<open>With 0:12 stored: three steps of the encoder during the countdown leave 0:11 after
  one tick; two more during the wait after the abort bring \<open>encoderPos\<close> to 5; the
  acknowledgement sets it back to 3, the last reported position, and the time is still
  0:11.\<close>

theorem encoder_only_while_configuring_witness:
  "timerState (run [Poll (poll_at True 4000), Isr True True, Isr True True, Poll (poll_at False 5000),
      Isr True True] (started 12)) = Counting \<and>
   encoderPos (run [Poll (poll_at True 4000), Isr True True, Isr True True, Poll (poll_at False 5000),
      Isr True True] (started 12)) = 3 \<and>
   minutes (run [Poll (poll_at True 4000), Isr True True, Isr True True, Poll (poll_at False 5000),
      Isr True True] (started 12)) = 0 \<and>
   seconds (run [Poll (poll_at True 4000), Isr True True, Isr True True, Poll (poll_at False 5000),
      Isr True True] (started 12)) = 11 \<and>
   timerState (run [Poll (poll_at True 4000), Isr True True, Isr True True, Poll (poll_at False 5000),
      Isr True True, Poll (poll_at True 5500), Isr True True, Isr True True] (started 12)) = Aborted \<and>
   encoderPos (run [Poll (poll_at True 4000), Isr True True, Isr True True, Poll (poll_at False 5000),
      Isr True True, Poll (poll_at True 5500), Isr True True, Isr True True] (started 12)) = 5 \<and>
   timerState (step (Poll (poll_at True 7000))
     (run [Poll (poll_at True 4000), Isr True True, Isr True True, Poll (poll_at False 5000),
      Isr True True, Poll (poll_at True 5500), Isr True True, Isr True True] (started 12)))
     = Configuring \<and>
   encoderPos (step (Poll (poll_at True 7000))
     (run [Poll (poll_at True 4000), Isr True True, Isr True True, Poll (poll_at False 5000),
      Isr True True, Poll (poll_at True 5500), Isr True True, Isr True True] (started 12))) = 3 \<and>
   lastReportedPos (step (Poll (poll_at True 7000))
     (run [Poll (poll_at True 4000), Isr True True, Isr True True, Poll (poll_at False 5000),
      Isr True True, Poll (poll_at True 5500), Isr True True, Isr True True] (started 12))) = 3 \<and>
   seconds (step (Poll (poll_at True 7000))
     (run [Poll (poll_at True 4000), Isr True True, Isr True True, Poll (poll_at False 5000),
      Isr True True, Poll (poll_at True 5500), Isr True True, Isr True True] (started 12))) = 11"
proof -
  let ?c = "run [Poll (poll_at True 4000), Isr True True, Isr True True, Poll (poll_at False 5000),
      Isr True True] (started 12)"
  let ?a = "run [Poll (poll_at True 4000), Isr True True, Isr True True, Poll (poll_at False 5000),
      Isr True True, Poll (poll_at True 5500), Isr True True, Isr True True] (started 12)"
  have c: "timerState ?c = Counting" "encoderPos ?c = 3" "minutes ?c = 0" "seconds ?c = 11"
    by code_simp+
  have a: "timerState ?a = Aborted" "encoderPos ?a = 5" "lastReportedPos ?a = 3"
    "minutes ?a = 0" "seconds ?a = 11" "fst (isButtonPressed (poll_at True 7000) ?a)"
    by code_simp+
  show ?thesis
    using encoder_only_while_configuring [of True True ?a "poll_at True 7000" 0 0] a c
    by simp
qed

end
